theory Spec2Isabelle
  imports Main
begin

section \<open>Syntax tree of a source file\<close>

text \<open>
  The analyzer (src/analyzer.ts) works on the tree that the TypeScript parser
  (\<^verbatim>\<open>ts.createSourceFile\<close>) builds from the text.  The parser is a third-party
  library; the tree it returns is the input of the model.  Only the node kinds that
  \<^verbatim>\<open>analyzeFile\<close> tells apart are separate constructors: identifiers, import
  declarations, and every other node with its children in \<^verbatim>\<open>forEachChild\<close> order.
  Positions are character offsets into the text: \<open>start\<close> is \<^verbatim>\<open>node.getStart()\<close>
  (leading trivia skipped) and \<open>end\<close> is \<^verbatim>\<open>node.getEnd()\<close>.
\<close>

datatype ident = Ident (idText: string) (idStart: nat) (idEnd: nat)

datatype ImportSpecifier =
  ImportSpecifier (propertyName: "ident option") (specName: ident) (specStart: nat) (specEnd: nat)

datatype NamedImportBindings =
  NamedImports (elements: "ImportSpecifier list")
| NamespaceImport (nsName: ident)

datatype ImportClause =
  ImportClause (isTypeOnly: bool) (clauseName: "ident option")
    (namedBindings: "NamedImportBindings option")

datatype StringLiteral = StringLiteral (litStart: nat) (litEnd: nat)

datatype ImportDeclaration =
  ImportDeclaration (importClause: "ImportClause option") (moduleSpecifier: StringLiteral)
    (declStart: nat) (declEnd: nat)

datatype node =
  IdentifierNode ident
| ImportDeclarationNode ImportDeclaration
| OtherNode (kind: string) (nodeStart: nat) (nodeEnd: nat) (children: "node list")

record SourceFile =
  sfText :: string
  sfChildren :: "node list"
  parseDiagnostics :: "string list"

section \<open>Text positions\<close>

text \<open>
  \<^verbatim>\<open>sourceFile.getLineAndCharacterOfPosition\<close>: the line starts are position 0 and
  the position after every line break (CR LF, CR or LF); the line of a position is the
  last line start not after it, the character is the distance from that line start.
  Texts are sequences of 8-bit characters: the separators U+2028 and U+2029, at which the
  parser breaks lines as well, do not occur in them.
\<close>

fun lineStartsFrom :: "nat \<Rightarrow> string \<Rightarrow> nat list" where
  "lineStartsFrom p [] = []"
| "lineStartsFrom p (c # cs) =
     (if c = CHR 0x0D then
        (case cs of
           [] \<Rightarrow> [p + 1]
         | c' # cs' \<Rightarrow>
             if c' = CHR 0x0A then (p + 2) # lineStartsFrom (p + 2) cs'
             else (p + 1) # lineStartsFrom (p + 1) cs)
      else if c = CHR 0x0A then (p + 1) # lineStartsFrom (p + 1) cs
      else lineStartsFrom (p + 1) cs)"

definition computeLineStarts :: "string \<Rightarrow> nat list" where
  "computeLineStarts txt = 0 # lineStartsFrom 0 txt"

definition getLineAndCharacterOfPosition :: "SourceFile \<Rightarrow> nat \<Rightarrow> nat \<times> nat" where
  "getLineAndCharacterOfPosition sf p =
     (let reached = filter (\<lambda>s. s \<le> p) (computeLineStarts (sfText sf))
      in (length reached - 1, p - last reached))"

text \<open>\<^verbatim>\<open>node.getText(sourceFile)\<close> is \<^verbatim>\<open>text.substring(start, end)\<close>.\<close>

definition substring :: "string \<Rightarrow> nat \<Rightarrow> nat \<Rightarrow> string" where
  "substring txt s e = take (e - s) (drop s txt)"

definition getText :: "SourceFile \<Rightarrow> nat \<Rightarrow> nat \<Rightarrow> string" where
  "getText sf s e = substring (sfText sf) s e"

text \<open>
  \<^verbatim>\<open>String.prototype.trim\<close> on the ASCII white space and line terminators; the
  other Unicode spaces it strips do not occur in texts of 8-bit characters.
\<close>

definition isWhiteSpace :: "char \<Rightarrow> bool" where
  "isWhiteSpace c = (c = CHR '' '' \<or> c = CHR 0x09 \<or> c = CHR 0x0A \<or> c = CHR 0x0B
                      \<or> c = CHR 0x0C \<or> c = CHR 0x0D)"

definition trim :: "string \<Rightarrow> string" where
  "trim s = rev (dropWhile isWhiteSpace (rev (dropWhile isWhiteSpace s)))"

section \<open>Edits\<close>

text \<open>
  A \<^verbatim>\<open>vscode.Range\<close> is (start line, start character, end line, end character);
  \<^verbatim>\<open>TextEdit.delete\<close> and \<^verbatim>\<open>TextEdit.replace\<close> are the two factories the analyzer
  calls.  The constructor of \<^verbatim>\<open>vscode.Range\<close> only swaps reversed end points, which
  a node whose start is not after its end never has: the four numbers are stored as given.
\<close>

datatype Range = Range (startLine: nat) (startCharacter: nat) (endLine: nat) (endCharacter: nat)

datatype TextEdit = Delete (editRange: Range) | Replace (editRange: Range) (newText: string)

definition getRange :: "SourceFile \<Rightarrow> nat \<Rightarrow> nat \<Rightarrow> Range" where
  "getRange sf s e =
     (let st = getLineAndCharacterOfPosition sf s;
          en = getLineAndCharacterOfPosition sf e
      in Range (fst st) (snd st) (fst en) (snd en))"

definition declRange :: "SourceFile \<Rightarrow> ImportDeclaration \<Rightarrow> Range" where
  "declRange sf d = getRange sf (declStart d) (declEnd d)"

definition lineDeletion :: "SourceFile \<Rightarrow> ImportDeclaration \<Rightarrow> TextEdit" where
  "lineDeletion sf d =
     (let r = declRange sf d in Delete (Range (startLine r) 0 (endLine r + 1) 0))"

section \<open>First pass: identifiers outside import declarations\<close>

fun visit :: "node \<Rightarrow> string set \<Rightarrow> string set" where
  "visit (ImportDeclarationNode d) acc = acc"
| "visit (IdentifierNode i) acc = insert (idText i) acc"
| "visit (OtherNode k s e cs) acc = fold visit cs acc"

definition allIdentifiers :: "SourceFile \<Rightarrow> string set" where
  "allIdentifiers sf = fold visit (sfChildren sf) {}"

section \<open>Second pass: imported symbols\<close>

text \<open>
  The analyzer compares nodes and declarations by object identity.  A node of an import
  declaration is named here by where it sits: the declaration is the \<open>i\<close>-th child of
  the source file, and the node is the clause's default name, the \<open>j\<close>-th element of
  the named imports, or the name of the namespace import.
\<close>

datatype nodeRef = ClauseNameRef nat | SpecifierRef nat nat | NamespaceNameRef nat

type_synonym declRef = "nat \<times> ImportDeclaration"

record symbol =
  name :: string
  node :: nodeRef
  parent :: declRef

definition namedSymbols :: "declRef \<Rightarrow> ImportSpecifier list \<Rightarrow> symbol list" where
  "namedSymbols p es =
     map (\<lambda>(j, el). \<lparr>name = idText (specName el), node = SpecifierRef (fst p) j, parent = p\<rparr>)
       (enumerate 0 es)"

definition declSymbols :: "declRef \<Rightarrow> symbol list" where
  "declSymbols p =
     (case importClause (snd p) of
        None \<Rightarrow> []
      | Some c \<Rightarrow>
          (case clauseName c of
             None \<Rightarrow> []
           | Some n \<Rightarrow> [\<lparr>name = idText n, node = ClauseNameRef (fst p), parent = p\<rparr>])
          @ (case namedBindings c of
               None \<Rightarrow> []
             | Some (NamedImports es) \<Rightarrow> namedSymbols p es
             | Some (NamespaceImport n) \<Rightarrow>
                 [\<lparr>name = idText n, node = NamespaceNameRef (fst p), parent = p\<rparr>]))"

fun nodeSymbols :: "nat \<times> node \<Rightarrow> symbol list" where
  "nodeSymbols (i, ImportDeclarationNode d) = declSymbols (i, d)"
| "nodeSymbols (i, IdentifierNode v) = []"
| "nodeSymbols (i, OtherNode k s e cs) = []"

definition importedSymbols :: "SourceFile \<Rightarrow> symbol list" where
  "importedSymbols sf = concat (map nodeSymbols (enumerate 0 (sfChildren sf)))"

definition unusedSymbols :: "SourceFile \<Rightarrow> symbol list" where
  "unusedSymbols sf = filter (\<lambda>s. name s \<notin> allIdentifiers sf) (importedSymbols sf)"

section \<open>Grouping by declaration\<close>

text \<open>
  \<^verbatim>\<open>unusedImportsByDeclaration\<close> is a \<^verbatim>\<open>Map\<close>, iterated in insertion order: an
  association list, a new key appended at the end, a node appended to its key's list.
\<close>

fun pushNode :: "declRef \<Rightarrow> nodeRef \<Rightarrow> (declRef \<times> nodeRef list) list
    \<Rightarrow> (declRef \<times> nodeRef list) list" where
  "pushNode k v [] = [(k, [v])]"
| "pushNode k v ((k', vs) # m) =
     (if k' = k then (k', vs @ [v]) # m else (k', vs) # pushNode k v m)"

definition unusedImportsByDeclaration :: "SourceFile \<Rightarrow> (declRef \<times> nodeRef list) list" where
  "unusedImportsByDeclaration sf =
     fold (\<lambda>s m. pushNode (parent s) (node s) m) (unusedSymbols sf) []"

section \<open>Edit synthesis\<close>

text \<open>
  The tests the loop body makes on a node of \<^verbatim>\<open>unusedNodes\<close>.  A default name and a
  namespace name are identifier nodes, an import specifier is not.  The parent of a
  default name is the import clause, whose \<^verbatim>\<open>name\<close> is that identifier; the parent of a
  namespace name is the namespace import, whose \<^verbatim>\<open>name\<close> is that identifier; the
  parent of a specifier is the named imports node, which has no \<^verbatim>\<open>name\<close>.
\<close>

fun isIdentifier :: "nodeRef \<Rightarrow> bool" where
  "isIdentifier (ClauseNameRef i) = True"
| "isIdentifier (NamespaceNameRef i) = True"
| "isIdentifier (SpecifierRef i j) = False"

fun parentName :: "nodeRef \<Rightarrow> nodeRef option" where
  "parentName (ClauseNameRef i) = Some (ClauseNameRef i)"
| "parentName (NamespaceNameRef i) = Some (NamespaceNameRef i)"
| "parentName (SpecifierRef i j) = None"

text \<open>\<^verbatim>\<open>declaration.importClause?.name\<close> as a node reference.\<close>

definition importClauseName :: "declRef \<Rightarrow> nodeRef option" where
  "importClauseName p =
     (case importClause (snd p) of
        None \<Rightarrow> None
      | Some c \<Rightarrow> (case clauseName c of None \<Rightarrow> None | Some n \<Rightarrow> Some (ClauseNameRef (fst p))))"

definition declNamedBindings :: "ImportDeclaration \<Rightarrow> NamedImportBindings option" where
  "declNamedBindings d =
     (case importClause d of None \<Rightarrow> None | Some c \<Rightarrow> namedBindings c)"

definition isDefaultImportUnused :: "declRef \<Rightarrow> nodeRef list \<Rightarrow> bool" where
  "isDefaultImportUnused p unusedNodes =
     list_ex (\<lambda>n. isIdentifier n \<and> importClauseName p = Some n) unusedNodes"

text \<open>
  \<^verbatim>\<open>(namedBindings as ts.NamedImports)?.elements?.filter(...)\<close>: undefined (\<open>None\<close>)
  without named bindings and for a namespace import, which has no \<^verbatim>\<open>elements\<close>.
\<close>

definition usedSpecifiers :: "declRef \<Rightarrow> nodeRef list \<Rightarrow> ImportSpecifier list option" where
  "usedSpecifiers p unusedNodes =
     (case declNamedBindings (snd p) of
        None \<Rightarrow> None
      | Some (NamespaceImport n) \<Rightarrow> None
      | Some (NamedImports es) \<Rightarrow>
          Some (map snd (filter (\<lambda>(j, el). \<not> list_ex (\<lambda>u. u = SpecifierRef (fst p) j) unusedNodes)
                           (enumerate 0 es))))"

definition isNamespaceImport :: "ImportDeclaration \<Rightarrow> bool" where
  "isNamespaceImport d =
     (case declNamedBindings d of Some (NamespaceImport n) \<Rightarrow> True | _ \<Rightarrow> False)"

definition isNamespaceImportUsed :: "declRef \<Rightarrow> nodeRef list \<Rightarrow> bool" where
  "isNamespaceImportUsed p unusedNodes =
     (isNamespaceImport (snd p)
      \<and> \<not> list_ex (\<lambda>n. isIdentifier n \<and> parentName n = Some n) unusedNodes)"

text \<open>
  \<^verbatim>\<open>defaultImportName\<close> is the text of the default name when the clause has one that is
  not among the unused nodes, and undefined otherwise; the empty string is falsy.
\<close>

definition defaultImportName :: "SourceFile \<Rightarrow> declRef \<Rightarrow> nodeRef list \<Rightarrow> string option" where
  "defaultImportName sf p unusedNodes =
     (case importClause (snd p) of
        None \<Rightarrow> None
      | Some c \<Rightarrow>
          (case clauseName c of
             None \<Rightarrow> None
           | Some n \<Rightarrow>
               if \<not> isDefaultImportUnused p unusedNodes
               then Some (getText sf (idStart n) (idEnd n)) else None))"

fun truthy :: "string option \<Rightarrow> bool" where
  "truthy None = False"
| "truthy (Some s) = (s \<noteq> [])"

fun nonEmpty :: "'a list option \<Rightarrow> bool" where
  "nonEmpty None = False"
| "nonEmpty (Some xs) = (xs \<noteq> [])"

fun join :: "string \<Rightarrow> string list \<Rightarrow> string" where
  "join sep [] = []"
| "join sep [x] = x"
| "join sep (x # y # ys) = x @ sep @ join sep (y # ys)"

definition newImport :: "SourceFile \<Rightarrow> ImportDeclaration \<Rightarrow> string option
    \<Rightarrow> ImportSpecifier list option \<Rightarrow> string" where
  "newImport sf d dflt used =
     ''import ''
     @ (if truthy dflt then the dflt @ (if nonEmpty used then '', '' else []) else [])
     @ (if nonEmpty used
        then ''{ '' @ join '', '' (map (\<lambda>s. getText sf (specStart s) (specEnd s)) (the used)) @ '' }''
        else [])
     @ '' from ''
     @ getText sf (litStart (moduleSpecifier d)) (litEnd (moduleSpecifier d))
     @ '';''"

definition originalImport :: "SourceFile \<Rightarrow> ImportDeclaration \<Rightarrow> string" where
  "originalImport sf d = getText sf (declStart d) (declEnd d)"

text \<open>
  One iteration of the loop over \<^verbatim>\<open>unusedImportsByDeclaration.entries()\<close>: the edit it
  pushes, if any.
\<close>

definition declEdit :: "SourceFile \<Rightarrow> declRef \<times> nodeRef list \<Rightarrow> TextEdit option" where
  "declEdit sf entry =
     (let p = fst entry; unusedNodes = snd entry; d = snd p;
          used = usedSpecifiers p unusedNodes
      in if isNamespaceImport d \<and> \<not> isNamespaceImportUsed p unusedNodes
         then Some (lineDeletion sf d)
         else
           let dflt = defaultImportName sf p unusedNodes
           in if \<not> truthy dflt \<and> \<not> nonEmpty used
              then Some (lineDeletion sf d)
              else
                let new = newImport sf d dflt used
                in if trim new \<noteq> trim (originalImport sf d)
                   then Some (Replace (declRange sf d) new)
                   else None)"

fun pushEdit :: "TextEdit option \<Rightarrow> TextEdit list \<Rightarrow> TextEdit list" where
  "pushEdit None edits = edits"
| "pushEdit (Some e) edits = edits @ [e]"

definition analyzeFile :: "SourceFile \<Rightarrow> TextEdit list" where
  "analyzeFile sf =
     fold (\<lambda>entry edits. pushEdit (declEdit sf entry) edits) (unusedImportsByDeclaration sf) []"

section \<open>Applying edits\<close>

text \<open>
  The host editor applies the edits of one file together, every range read against the
  original text (\<^verbatim>\<open>vscode.workspace.applyEdit\<close> in processFile).  A position past the
  end of the text is clamped to the end.  For edits in file order that do not overlap this
  is the same as applying the last edit first.
\<close>

definition offsetAt :: "string \<Rightarrow> nat \<Rightarrow> nat \<Rightarrow> nat" where
  "offsetAt txt l c =
     (let ls = computeLineStarts txt
      in if l < length ls then min (ls ! l + c) (length txt) else length txt)"

definition spliceText :: "string \<Rightarrow> Range \<Rightarrow> string \<Rightarrow> string" where
  "spliceText txt r new =
     take (offsetAt txt (startLine r) (startCharacter r)) txt
     @ new
     @ drop (offsetAt txt (endLine r) (endCharacter r)) txt"

fun applyEdit :: "TextEdit \<Rightarrow> string \<Rightarrow> string" where
  "applyEdit (Delete r) txt = spliceText txt r []"
| "applyEdit (Replace r new) txt = spliceText txt r new"

definition applyEdits :: "string \<Rightarrow> TextEdit list \<Rightarrow> string" where
  "applyEdits txt edits = foldr applyEdit edits txt"

section \<open>Kept and removed bindings of a statement\<close>

text \<open>
  The notions the properties are stated with: the import statements of a file, and for one
  statement the bindings whose local name is in the usage set (kept) and those whose name
  is not (removed), in their original order.
\<close>

definition unusedName :: "SourceFile \<Rightarrow> symbol \<Rightarrow> bool" where
  "unusedName sf = (\<lambda>s. name s \<notin> allIdentifiers sf)"

definition removed :: "SourceFile \<Rightarrow> declRef \<Rightarrow> symbol list" where
  "removed sf p = filter (\<lambda>s. name s \<notin> allIdentifiers sf) (declSymbols p)"

definition kept :: "SourceFile \<Rightarrow> declRef \<Rightarrow> symbol list" where
  "kept sf p = filter (\<lambda>s. name s \<in> allIdentifiers sf) (declSymbols p)"

definition removedNodes :: "SourceFile \<Rightarrow> declRef \<Rightarrow> nodeRef list" where
  "removedNodes sf p = map node (removed sf p)"

fun nodeStatement :: "nat \<times> node \<Rightarrow> declRef list" where
  "nodeStatement (i, ImportDeclarationNode d) = [(i, d)]"
| "nodeStatement (i, IdentifierNode v) = []"
| "nodeStatement (i, OtherNode k s e cs) = []"

definition importStatements :: "SourceFile \<Rightarrow> declRef list" where
  "importStatements sf = concat (map nodeStatement (enumerate 0 (sfChildren sf)))"

text \<open>The text of a kept default binding and the kept named specifiers.\<close>

definition keptDefault :: "SourceFile \<Rightarrow> ImportDeclaration \<Rightarrow> string option" where
  "keptDefault sf d =
     (case importClause d of
        None \<Rightarrow> None
      | Some c \<Rightarrow>
          (case clauseName c of
             None \<Rightarrow> None
           | Some n \<Rightarrow>
               if idText n \<in> allIdentifiers sf then Some (getText sf (idStart n) (idEnd n))
               else None))"

definition keptSpecifiers :: "SourceFile \<Rightarrow> ImportDeclaration \<Rightarrow> ImportSpecifier list option" where
  "keptSpecifiers sf d =
     (case declNamedBindings d of
        None \<Rightarrow> None
      | Some (NamespaceImport n) \<Rightarrow> None
      | Some (NamedImports es) \<Rightarrow>
          Some (filter (\<lambda>el. idText (specName el) \<in> allIdentifiers sf) es))"

definition rebuilt :: "SourceFile \<Rightarrow> ImportDeclaration \<Rightarrow> string" where
  "rebuilt sf d = newImport sf d (keptDefault sf d) (keptSpecifiers sf d)"

text \<open>The edit of one import statement: none when nothing of it is removed.\<close>

definition statementEdit :: "SourceFile \<Rightarrow> declRef \<Rightarrow> TextEdit option" where
  "statementEdit sf p =
     (if removed sf p = [] then None else declEdit sf (p, removedNodes sf p))"

text \<open>Auxiliary forms of the grouped map used in the proofs.\<close>

definition defaultNodes :: "SourceFile \<Rightarrow> declRef \<Rightarrow> nodeRef list" where
  "defaultNodes sf p =
     (case importClauseName p of
        None \<Rightarrow> []
      | Some r \<Rightarrow> if keptDefault sf (snd p) = None then [r] else [])"

fun nodeEntry :: "(symbol \<Rightarrow> bool) \<Rightarrow> nat \<times> node \<Rightarrow> (declRef \<times> nodeRef list) list" where
  "nodeEntry P (i, ImportDeclarationNode d) =
     (if filter P (declSymbols (i, d)) = [] then []
      else [((i, d), map node (filter P (declSymbols (i, d))))])"
| "nodeEntry P (i, IdentifierNode v) = []"
| "nodeEntry P (i, OtherNode k s e cs) = []"

definition declEntries :: "SourceFile \<Rightarrow> (declRef \<times> nodeRef list) list" where
  "declEntries sf = concat (map (nodeEntry (unusedName sf)) (enumerate 0 (sfChildren sf)))"

section \<open>Order of edits\<close>

text \<open>
  Positions are compared line first.  One range precedes another when it ends at or before
  the start of the other; two ranges overlap when each starts before the other ends.
\<close>

fun posLe :: "nat \<times> nat \<Rightarrow> nat \<times> nat \<Rightarrow> bool" where
  "posLe (l1, c1) (l2, c2) = (l1 < l2 \<or> (l1 = l2 \<and> c1 \<le> c2))"

definition rangeStart :: "Range \<Rightarrow> nat \<times> nat" where
  "rangeStart r = (startLine r, startCharacter r)"

definition rangeEnd :: "Range \<Rightarrow> nat \<times> nat" where
  "rangeEnd r = (endLine r, endCharacter r)"

definition precedes :: "Range \<Rightarrow> Range \<Rightarrow> bool" where
  "precedes r1 r2 = posLe (rangeEnd r1) (rangeStart r2)"

definition overlaps :: "Range \<Rightarrow> Range \<Rightarrow> bool" where
  "overlaps r1 r2 = (\<not> posLe (rangeEnd r1) (rangeStart r2) \<and> \<not> posLe (rangeEnd r2) (rangeStart r1))"

definition inFileOrder :: "TextEdit list \<Rightarrow> bool" where
  "inFileOrder edits = sorted_wrt (\<lambda>e e'. precedes (editRange e) (editRange e')) edits"

text \<open>Every import statement ends on a line before the line the next one starts on.\<close>

definition onSeparateLines :: "SourceFile \<Rightarrow> bool" where
  "onSeparateLines sf =
     sorted_wrt (\<lambda>p p'. endLine (declRange sf (snd p)) < startLine (declRange sf (snd p')))
       (importStatements sf)"


section \<open>The rebuilt statement, from the kept bindings\<close>

text \<open>
  The text of a reduced import statement, written from the kept bindings alone: the word
  \<^verbatim>\<open>import\<close>, the kept default name, a comma if named specifiers follow, the kept
  specifiers in braces, \<^verbatim>\<open>from\<close>, the module specifier and a semicolon.  It is compared
  with what \<open>newImport\<close> builds.
\<close>

fun specifierTexts :: "SourceFile \<Rightarrow> ImportSpecifier list option \<Rightarrow> string list" where
  "specifierTexts sf None = []"
| "specifierTexts sf (Some es) = map (\<lambda>el. getText sf (specStart el) (specEnd el)) es"

fun survivingDefault :: "string option \<Rightarrow> string" where
  "survivingDefault None = []"
| "survivingDefault (Some t) = t"

definition reducedImportText :: "SourceFile \<Rightarrow> ImportDeclaration \<Rightarrow> string" where
  "reducedImportText sf d =
     (let dflt = survivingDefault (keptDefault sf d);
          specs = specifierTexts sf (keptSpecifiers sf d)
      in ''import ''
         @ (if dflt = [] then [] else dflt @ (if specs = [] then [] else '', ''))
         @ (if specs = [] then [] else ''{ '' @ join '', '' specs @ '' }'')
         @ '' from ''
         @ getText sf (litStart (moduleSpecifier d)) (litEnd (moduleSpecifier d))
         @ '';'')"



section \<open>The tree of the rewritten text\<close>





















section \<open>Parsed example files\<close>

text \<open>
  The trees below are what \<^verbatim>\<open>ts.createSourceFile\<close> returns for the given texts
  (children in \<^verbatim>\<open>forEachChild\<close> order, offsets counted from 0, the line break is one
  LF character).
\<close>

definition LF :: string where
  "LF = [CHR 0x0A]"

definition endOfFile :: "nat \<Rightarrow> node" where
  "endOfFile p = OtherNode ''EndOfFileToken'' p p []"

text \<open>\<^verbatim>\<open>import Def, * as NS from './m';\<close> / \<^verbatim>\<open>NS.f();\<close>\<close>

definition defaultAndNamespaceDecl :: ImportDeclaration where
  "defaultAndNamespaceDecl =
     ImportDeclaration
       (Some (ImportClause False (Some (Ident ''Def'' 7 10))
          (Some (NamespaceImport (Ident ''NS'' 17 19)))))
       (StringLiteral 25 30) 0 31"

definition namespaceUsedFile :: SourceFile where
  "namespaceUsedFile =
     \<lparr>sfText = ''import Def, * as NS from './m';'' @ LF @ ''NS.f();'',
      sfChildren =
        [ImportDeclarationNode defaultAndNamespaceDecl,
         OtherNode ''ExpressionStatement'' 32 39
           [OtherNode ''CallExpression'' 32 38
              [OtherNode ''PropertyAccessExpression'' 32 36
                 [IdentifierNode (Ident ''NS'' 32 34), IdentifierNode (Ident ''f'' 35 36)]]],
         endOfFile 39],
      parseDiagnostics = []\<rparr>"

text \<open>\<^verbatim>\<open>import Def, * as NS from './m';\<close> / \<^verbatim>\<open>Def();\<close>\<close>

definition defaultUsedFile :: SourceFile where
  "defaultUsedFile =
     \<lparr>sfText = ''import Def, * as NS from './m';'' @ LF @ ''Def();'',
      sfChildren =
        [ImportDeclarationNode defaultAndNamespaceDecl,
         OtherNode ''ExpressionStatement'' 32 38
           [OtherNode ''CallExpression'' 32 37 [IdentifierNode (Ident ''Def'' 32 35)]],
         endOfFile 38],
      parseDiagnostics = []\<rparr>"

text \<open>\<^verbatim>\<open>import { Name } from './m';\<close> / \<^verbatim>\<open>const o = { Name: 1 };\<close>\<close>

definition plainKeyFile :: SourceFile where
  "plainKeyFile =
     \<lparr>sfText = ''import { Name } from './m';'' @ LF @ ''const o = { Name: 1 };'',
      sfChildren =
        [ImportDeclarationNode
           (ImportDeclaration
              (Some (ImportClause False None
                 (Some (NamedImports [ImportSpecifier None (Ident ''Name'' 9 13) 9 13]))))
              (StringLiteral 21 26) 0 27),
         OtherNode ''VariableStatement'' 28 50
           [OtherNode ''VariableDeclarationList'' 28 49
              [OtherNode ''VariableDeclaration'' 34 49
                 [IdentifierNode (Ident ''o'' 34 35),
                  OtherNode ''ObjectLiteralExpression'' 38 49
                    [OtherNode ''PropertyAssignment'' 40 47
                       [IdentifierNode (Ident ''Name'' 40 44),
                        OtherNode ''NumericLiteral'' 46 47 []]]]]],
         endOfFile 50],
      parseDiagnostics = []\<rparr>"

text \<open>\<^verbatim>\<open>import type { Used, Unused } from './t';\<close> / \<^verbatim>\<open>let x: Used;\<close>\<close>

definition typeOnlyDecl :: ImportDeclaration where
  "typeOnlyDecl =
     ImportDeclaration
       (Some (ImportClause True None
          (Some (NamedImports
             [ImportSpecifier None (Ident ''Used'' 14 18) 14 18,
              ImportSpecifier None (Ident ''Unused'' 20 26) 20 26]))))
       (StringLiteral 34 39) 0 40"

definition typeOnlyFile :: SourceFile where
  "typeOnlyFile =
     \<lparr>sfText = ''import type { Used, Unused } from './t';'' @ LF @ ''let x: Used;'',
      sfChildren =
        [ImportDeclarationNode typeOnlyDecl,
         OtherNode ''VariableStatement'' 41 53
           [OtherNode ''VariableDeclarationList'' 41 52
              [OtherNode ''VariableDeclaration'' 45 52
                 [IdentifierNode (Ident ''x'' 45 46),
                  OtherNode ''TypeReference'' 48 52 [IdentifierNode (Ident ''Used'' 48 52)]]]],
         endOfFile 53],
      parseDiagnostics = []\<rparr>"

text \<open>\<^verbatim>\<open>import a from 'a'; import b from 'b';\<close> on one line\<close>

definition sharedLineFile :: SourceFile where
  "sharedLineFile =
     \<lparr>sfText = ''import a from 'a'; import b from 'b';'',
      sfChildren =
        [ImportDeclarationNode
           (ImportDeclaration (Some (ImportClause False (Some (Ident ''a'' 7 8)) None))
              (StringLiteral 14 17) 0 18),
         ImportDeclarationNode
           (ImportDeclaration (Some (ImportClause False (Some (Ident ''b'' 26 27)) None))
              (StringLiteral 33 36) 19 37),
         endOfFile 37],
      parseDiagnostics = []\<rparr>"






text \<open>
  The empty text, and the text \<^verbatim>\<open>)\<close>: the parser finds no statement in it, reports the
  stray parenthesis (``Declaration or statement expected'') and returns a tree with the
  end-of-file token alone.
\<close>

definition emptyFile :: SourceFile where
  "emptyFile = \<lparr>sfText = [], sfChildren = [endOfFile 0], parseDiagnostics = []\<rparr>"

definition unparsedFile :: SourceFile where
  "unparsedFile =
     \<lparr>sfText = '')'', sfChildren = [endOfFile 1],
      parseDiagnostics = [''Declaration or statement expected.'']\<rparr>"

text \<open>\<^verbatim>\<open>import a from 'a'; import './x';\<close> on one line\<close>

definition sideEffectDecl :: ImportDeclaration where
  "sideEffectDecl = ImportDeclaration None (StringLiteral 26 31) 19 32"

definition sideEffectFile :: SourceFile where
  "sideEffectFile =
     \<lparr>sfText = ''import a from 'a'; import './x';'',
      sfChildren =
        [ImportDeclarationNode
           (ImportDeclaration (Some (ImportClause False (Some (Ident ''a'' 7 8)) None))
              (StringLiteral 14 17) 0 18),
         ImportDeclarationNode sideEffectDecl,
         endOfFile 32],
      parseDiagnostics = []\<rparr>"


text \<open>\<^verbatim>\<open>import a from 'a';\<close> / \<^verbatim>\<open>import b from 'b';\<close>\<close>

definition twoLineFile :: SourceFile where
  "twoLineFile =
     \<lparr>sfText = ''import a from 'a';'' @ LF @ ''import b from 'b';'',
      sfChildren =
        [ImportDeclarationNode
           (ImportDeclaration (Some (ImportClause False (Some (Ident ''a'' 7 8)) None))
              (StringLiteral 14 17) 0 18),
         ImportDeclarationNode
           (ImportDeclaration (Some (ImportClause False (Some (Ident ''b'' 26 27)) None))
              (StringLiteral 33 36) 19 37),
         endOfFile 37],
      parseDiagnostics = []\<rparr>"


text \<open>\<^verbatim>\<open>import a from 'a';\<close> / \<^verbatim>\<open>import './x';\<close>\<close>

definition unusedADecl :: ImportDeclaration where
  "unusedADecl =
     ImportDeclaration (Some (ImportClause False (Some (Ident ''a'' 7 8)) None))
       (StringLiteral 14 17) 0 18"

definition sideEffectOwnLineFile :: SourceFile where
  "sideEffectOwnLineFile =
     \<lparr>sfText = ''import a from 'a';'' @ LF @ ''import './x';'',
      sfChildren =
        [ImportDeclarationNode unusedADecl,
         ImportDeclarationNode sideEffectDecl,
         endOfFile 32],
      parseDiagnostics = []\<rparr>"

section \<open>The grouped map, statement by statement\<close>

text \<open>
  Grouping the unused symbols by declaration yields, in file order, one entry for every
  import declaration with an unused binding, holding its unused nodes in order.
\<close>

lemma declSymbols_parent: "s \<in> set (declSymbols p) \<Longrightarrow> parent s = p"
proof (cases "importClause (snd p)")
  case None
  then show "s \<in> set (declSymbols p) \<Longrightarrow> parent s = p" by (simp add: declSymbols_def)
next
  case (Some c)
  assume mem: "s \<in> set (declSymbols p)"
  show "parent s = p"
  proof (cases "namedBindings c")
    case None
    with Some mem show ?thesis by (auto simp: declSymbols_def split: option.splits)
  next
    case (Some nb)
    with \<open>importClause (snd p) = Some c\<close> mem show ?thesis
      by (cases nb) (auto simp: declSymbols_def namedSymbols_def split: option.splits)
  qed
qed

lemma pushNode_fresh: "k \<notin> fst ` set m \<Longrightarrow> pushNode k v m = m @ [(k, [v])]"
  by (induction m) auto

lemma pushNode_last:
  "k \<notin> fst ` set m \<Longrightarrow> pushNode k v (m @ [(k, vs)]) = m @ [(k, vs @ [v])]"
  by (induction m) auto

lemma fold_push_block_aux:
  assumes "k \<notin> fst ` set m" and "\<forall>s \<in> set ss. parent s = k"
  shows "fold (\<lambda>s m. pushNode (parent s) (node s) m) ss (m @ [(k, vs)])
         = m @ [(k, vs @ map node ss)]"
  using assms
proof (induction ss arbitrary: vs)
  case Nil
  then show ?case by simp
next
  case (Cons s ss)
  then show ?case by (simp add: pushNode_last)
qed

lemma fold_push_block:
  assumes "k \<notin> fst ` set m" and "\<forall>s \<in> set ss. parent s = k"
  shows "fold (\<lambda>s m. pushNode (parent s) (node s) m) ss m
         = (if ss = [] then m else m @ [(k, map node ss)])"
proof (cases ss)
  case Nil
  then show ?thesis by simp
next
  case (Cons s ss')
  with assms have "parent s = k" and "\<forall>s \<in> set ss'. parent s = k" by auto
  with assms(1) Cons show ?thesis
    using fold_push_block_aux [of k m ss' "[node s]"] by (simp add: pushNode_fresh)
qed

lemma fold_push_node:
  assumes "\<forall>k \<in> fst ` set m. fst k < i"
  shows "fold (\<lambda>s m. pushNode (parent s) (node s) m) (filter P (nodeSymbols (i, nd))) m
         = m @ nodeEntry P (i, nd)"
proof (cases nd)
  case (ImportDeclarationNode d)
  have fresh: "(i, d) \<notin> fst ` set m" using assms by fastforce
  have par: "\<forall>s \<in> set (filter P (declSymbols (i, d))). parent s = (i, d)"
    by (simp add: declSymbols_parent)
  show ?thesis using fold_push_block [OF fresh par] ImportDeclarationNode by simp
qed simp_all

lemma nodeEntry_keys: "k \<in> fst ` set (nodeEntry P (i, nd)) \<Longrightarrow> fst k = i"
  by (cases nd) (auto split: if_splits)

lemma fold_push_nodes:
  assumes "\<forall>k \<in> fst ` set m. fst k < n"
  shows "fold (\<lambda>s m. pushNode (parent s) (node s) m)
           (concat (map (\<lambda>x. filter P (nodeSymbols x)) (enumerate n cs))) m
         = m @ concat (map (nodeEntry P) (enumerate n cs))"
  using assms
proof (induction cs arbitrary: n m)
  case Nil
  then show ?case by simp
next
  case (Cons c cs)
  have step: "fold (\<lambda>s m. pushNode (parent s) (node s) m) (filter P (nodeSymbols (n, c))) m
              = m @ nodeEntry P (n, c)"
    using Cons.prems by (rule fold_push_node)
  have keys: "\<forall>k \<in> fst ` set (m @ nodeEntry P (n, c)). fst k < Suc n"
  proof
    fix k assume "k \<in> fst ` set (m @ nodeEntry P (n, c))"
    then have "k \<in> fst ` set m \<or> k \<in> fst ` set (nodeEntry P (n, c))" by auto
    then show "fst k < Suc n"
      using Cons.prems nodeEntry_keys [of k P n c] by (auto simp: less_Suc_eq)
  qed
  show ?case using Cons.IH [OF keys] step by simp
qed

lemma unusedImportsByDeclaration_eq: "unusedImportsByDeclaration sf = declEntries sf"
proof -
  have "unusedSymbols sf
        = concat (map (\<lambda>x. filter (unusedName sf) (nodeSymbols x)) (enumerate 0 (sfChildren sf)))"
    by (simp add: unusedSymbols_def importedSymbols_def unusedName_def filter_concat comp_def)
  then show ?thesis
    using fold_push_nodes [of "[]" 0 "unusedName sf" "sfChildren sf"]
    by (simp add: unusedImportsByDeclaration_def declEntries_def)
qed

lemma fold_pushEdit: "fold (\<lambda>x edits. pushEdit (f x) edits) xs acc = acc @ List.map_filter f xs"
proof (induction xs arbitrary: acc)
  case Nil
  then show ?case by (simp add: List.map_filter_simps)
next
  case (Cons x xs)
  then show ?case by (cases "f x") (simp_all add: List.map_filter_simps)
qed

lemma analyzeFile_eq: "analyzeFile sf = List.map_filter (declEdit sf) (declEntries sf)"
  by (simp add: analyzeFile_def unusedImportsByDeclaration_eq fold_pushEdit)

section \<open>The edit of one statement\<close>

lemma removed_unusedName: "removed sf p = filter (unusedName sf) (declSymbols p)"
  by (simp add: removed_def unusedName_def)

lemma namedSymbols_removed:
  "map node (filter (unusedName sf) (namedSymbols p es))
   = map (\<lambda>(j, el). SpecifierRef (fst p) j)
       (filter (\<lambda>(j, el). idText (specName el) \<notin> allIdentifiers sf) (enumerate 0 es))"
proof -
  have "filter (unusedName sf) (namedSymbols p es)
        = map (\<lambda>(j, el). \<lparr>name = idText (specName el), node = SpecifierRef (fst p) j, parent = p\<rparr>)
            (filter (\<lambda>(j, el). idText (specName el) \<notin> allIdentifiers sf) (enumerate 0 es))"
    unfolding namedSymbols_def filter_map
    by (rule arg_cong [where f = "map _"], rule filter_cong) (auto simp: unusedName_def)
  then show ?thesis by (simp add: case_prod_unfold comp_def)
qed

lemma defaultNodes_eq:
  assumes "importClause (snd p) = Some c"
  shows "map node (filter (unusedName sf)
           (case clauseName c of None \<Rightarrow> []
            | Some n \<Rightarrow> [\<lparr>name = idText n, node = ClauseNameRef (fst p), parent = p\<rparr>]))
         = defaultNodes sf p"
  using assms
  by (cases "clauseName c")
    (simp_all add: defaultNodes_def importClauseName_def keptDefault_def unusedName_def)

lemma removedNodes_named:
  assumes "importClause d = Some c" and "namedBindings c = Some (NamedImports es)"
  shows "removedNodes sf (i, d)
         = defaultNodes sf (i, d)
           @ map (\<lambda>(j, el). SpecifierRef i j)
               (filter (\<lambda>(j, el). idText (specName el) \<notin> allIdentifiers sf) (enumerate 0 es))"
  using assms defaultNodes_eq [of "(i, d)" c sf] namedSymbols_removed [of sf "(i, d)" es]
  by (simp add: removedNodes_def removed_unusedName declSymbols_def)

lemma removedNodes_namespace:
  assumes "importClause d = Some c" and "namedBindings c = Some (NamespaceImport v)"
  shows "removedNodes sf (i, d)
         = defaultNodes sf (i, d)
           @ (if idText v \<notin> allIdentifiers sf then [NamespaceNameRef i] else [])"
  using assms defaultNodes_eq [of "(i, d)" c sf]
  by (simp add: removedNodes_def removed_unusedName declSymbols_def unusedName_def)

lemma removedNodes_plain:
  assumes "importClause d = Some c" and "namedBindings c = None"
  shows "removedNodes sf (i, d) = defaultNodes sf (i, d)"
  using assms defaultNodes_eq [of "(i, d)" c sf]
  by (simp add: removedNodes_def removed_unusedName declSymbols_def)

lemma removedNodes_noClause:
  assumes "importClause d = None"
  shows "removedNodes sf (i, d) = []"
  using assms by (simp add: removedNodes_def removed_def declSymbols_def)

lemma defaultNodes_set: "set (defaultNodes sf (i, d)) \<subseteq> {ClauseNameRef i}"
  by (auto simp: defaultNodes_def importClauseName_def split: option.splits if_splits)

lemma clauseRef_defaultNodes:
  "ClauseNameRef i \<in> set (defaultNodes sf (i, d))
   \<longleftrightarrow> (\<exists>c n. importClause d = Some c \<and> clauseName c = Some n
              \<and> idText n \<notin> allIdentifiers sf)"
  by (auto simp: defaultNodes_def importClauseName_def keptDefault_def
      split: option.splits if_splits)

lemma clauseRef_removed:
  "ClauseNameRef i \<in> set (removedNodes sf (i, d))
   \<longleftrightarrow> (\<exists>c n. importClause d = Some c \<and> clauseName c = Some n
              \<and> idText n \<notin> allIdentifiers sf)"
proof (cases "importClause d")
  case None
  then show ?thesis by (simp add: removedNodes_noClause)
next
  case (Some c)
  show ?thesis
  proof (cases "namedBindings c")
    case None
    with Some show ?thesis by (simp only: removedNodes_plain clauseRef_defaultNodes)
  next
    case nb: (Some nb)
    show ?thesis
    proof (cases nb)
      case (NamedImports es)
      have "ClauseNameRef i \<notin> set (map (\<lambda>(j, el). SpecifierRef i j)
               (filter (\<lambda>(j, el). idText (specName el) \<notin> allIdentifiers sf) (enumerate 0 es)))"
        by auto
      with Some nb NamedImports show ?thesis
        using clauseRef_defaultNodes [of i sf d] by (simp only: removedNodes_named set_append Un_iff) simp
    next
      case (NamespaceImport v)
      with Some nb show ?thesis
        using clauseRef_defaultNodes [of i sf d] by (simp add: removedNodes_namespace)
    qed
  qed
qed

lemma specRef_removed:
  assumes "importClause d = Some c" and "namedBindings c = Some (NamedImports es)"
    and "j < length es"
  shows "SpecifierRef i j \<in> set (removedNodes sf (i, d))
         \<longleftrightarrow> idText (specName (es ! j)) \<notin> allIdentifiers sf"
proof -
  have "SpecifierRef i j \<notin> set (defaultNodes sf (i, d))"
    using defaultNodes_set [of sf i d] by auto
  moreover have "SpecifierRef i j \<in> set (map (\<lambda>(j, el). SpecifierRef i j)
               (filter (\<lambda>(j, el). idText (specName el) \<notin> allIdentifiers sf) (enumerate 0 es)))
        \<longleftrightarrow> idText (specName (es ! j)) \<notin> allIdentifiers sf"
    using assms(3) by (auto simp: in_set_enumerate_eq image_iff)
  ultimately show ?thesis
    by (simp only: removedNodes_named [OF assms(1,2)] set_append Un_iff) simp
qed

lemma isDefaultImportUnused_entry:
  "isDefaultImportUnused (i, d) (removedNodes sf (i, d))
   \<longleftrightarrow> (\<exists>c n. importClause d = Some c \<and> clauseName c = Some n \<and> idText n \<notin> allIdentifiers sf)"
proof -
  have "isDefaultImportUnused (i, d) (removedNodes sf (i, d))
        \<longleftrightarrow> importClauseName (i, d) = Some (ClauseNameRef i)
            \<and> ClauseNameRef i \<in> set (removedNodes sf (i, d))"
    by (auto simp: isDefaultImportUnused_def list_ex_iff importClauseName_def
        split: option.splits)
  then show ?thesis
    by (auto simp: clauseRef_removed importClauseName_def)
qed

lemma defaultImportName_entry:
  "defaultImportName sf (i, d) (removedNodes sf (i, d)) = keptDefault sf d"
  by (auto simp: defaultImportName_def keptDefault_def isDefaultImportUnused_entry
      split: option.splits)

lemma filter_enumerate_nth:
  "map snd (filter (\<lambda>(j, el). Q j) (enumerate 0 es)) = map snd (filter (\<lambda>(j, el). R el) (enumerate 0 es))"
  if "\<And>j. j < length es \<Longrightarrow> Q j \<longleftrightarrow> R (es ! j)"
proof -
  have "filter (\<lambda>(j, el). Q j) (enumerate 0 es) = filter (\<lambda>(j, el). R el) (enumerate 0 es)"
    by (rule filter_cong) (auto simp: in_set_enumerate_eq that)
  then show ?thesis by simp
qed

lemma map_snd_filter_enumerate:
  "map snd (filter (\<lambda>(j, el). R el) (enumerate n es)) = filter R es"
  by (induction es arbitrary: n) auto

lemma usedSpecifiers_entry:
  "usedSpecifiers (i, d) (removedNodes sf (i, d)) = keptSpecifiers sf d"
proof (cases "declNamedBindings d")
  case None
  then show ?thesis by (simp add: usedSpecifiers_def keptSpecifiers_def)
next
  case (Some nb)
  show ?thesis
  proof (cases nb)
    case (NamespaceImport n)
    with Some show ?thesis by (simp add: usedSpecifiers_def keptSpecifiers_def)
  next
    case (NamedImports es)
    with Some obtain c where c: "importClause d = Some c" "namedBindings c = Some (NamedImports es)"
      by (auto simp: declNamedBindings_def split: option.splits)
    have "map snd (filter (\<lambda>(j, el). \<not> list_ex (\<lambda>u. u = SpecifierRef i j) (removedNodes sf (i, d)))
                     (enumerate 0 es))
          = map snd (filter (\<lambda>(j, el). idText (specName el) \<in> allIdentifiers sf) (enumerate 0 es))"
      by (rule filter_enumerate_nth) (simp add: list_ex_iff specRef_removed [OF c])
    then show ?thesis
      using Some NamedImports
      by (simp add: usedSpecifiers_def keptSpecifiers_def map_snd_filter_enumerate)
  qed
qed

lemma removedNodes_identifier:
  assumes "isNamespaceImport d" and "n \<in> set (removedNodes sf (i, d))"
  shows "isIdentifier n \<and> parentName n = Some n"
proof -
  from assms(1) obtain c v where c: "importClause d = Some c" "namedBindings c = Some (NamespaceImport v)"
    by (auto simp: isNamespaceImport_def declNamedBindings_def
        split: option.splits NamedImportBindings.splits)
  from assms(2) have "n = ClauseNameRef i \<or> n = NamespaceNameRef i"
    using defaultNodes_set [of sf i d]
    by (auto simp: removedNodes_namespace [OF c] split: if_splits)
  then show ?thesis by auto
qed

lemma isNamespaceImportUsed_entry:
  assumes "removed sf (i, d) \<noteq> []"
  shows "\<not> isNamespaceImportUsed (i, d) (removedNodes sf (i, d))"
proof (cases "isNamespaceImport d")
  case False
  then show ?thesis by (simp add: isNamespaceImportUsed_def)
next
  case True
  from assms obtain n where n: "n \<in> set (removedNodes sf (i, d))"
    by (cases "removed sf (i, d)") (auto simp: removedNodes_def)
  with True have "isIdentifier n \<and> parentName n = Some n" by (rule removedNodes_identifier)
  with n show ?thesis by (auto simp: isNamespaceImportUsed_def list_ex_iff)
qed

lemma declEdit_entry:
  assumes "removed sf (i, d) \<noteq> []"
  shows "declEdit sf ((i, d), removedNodes sf (i, d)) =
     (if isNamespaceImport d then Some (lineDeletion sf d)
      else if \<not> truthy (keptDefault sf d) \<and> \<not> nonEmpty (keptSpecifiers sf d)
      then Some (lineDeletion sf d)
      else if trim (rebuilt sf d) \<noteq> trim (originalImport sf d)
      then Some (Replace (declRange sf d) (rebuilt sf d))
      else None)"
  using isNamespaceImportUsed_entry [OF assms]
  by (simp add: declEdit_def Let_def defaultImportName_entry usedSpecifiers_entry rebuilt_def)

section \<open>The edit list, statement by statement\<close>

lemma map_filter_append: "List.map_filter f (xs @ ys) = List.map_filter f xs @ List.map_filter f ys"
  by (simp add: List.map_filter_def)

lemma nodeEntry_statement:
  "List.map_filter (declEdit sf) (nodeEntry (unusedName sf) x)
   = List.map_filter (statementEdit sf) (nodeStatement x)"
proof (cases x)
  case (Pair i nd)
  show ?thesis
  proof (cases nd)
    case (ImportDeclarationNode d)
    with Pair show ?thesis
      by (simp add: List.map_filter_def statementEdit_def removedNodes_def removed_unusedName)
  qed (simp_all add: Pair List.map_filter_def)
qed

lemma entries_statements:
  "List.map_filter (declEdit sf) (concat (map (nodeEntry (unusedName sf)) ns))
   = List.map_filter (statementEdit sf) (concat (map nodeStatement ns))"
  by (induction ns) (simp_all add: map_filter_append nodeEntry_statement List.map_filter_simps(2))

lemma analyzeFile_statements:
  "analyzeFile sf = List.map_filter (statementEdit sf) (importStatements sf)"
  by (simp add: analyzeFile_eq declEntries_def importStatements_def entries_statements)

lemma statementEdit_eq:
  "statementEdit sf (i, d) =
     (if removed sf (i, d) = [] then None
      else if isNamespaceImport d then Some (lineDeletion sf d)
      else if \<not> truthy (keptDefault sf d) \<and> \<not> nonEmpty (keptSpecifiers sf d)
      then Some (lineDeletion sf d)
      else if trim (rebuilt sf d) \<noteq> trim (originalImport sf d)
      then Some (Replace (declRange sf d) (rebuilt sf d))
      else None)"
  by (simp add: statementEdit_def declEdit_entry)


lemma keptDefault_kept:
  "keptDefault sf d = Some t \<Longrightarrow> kept sf (i, d) \<noteq> []"
  by (auto simp: keptDefault_def kept_def declSymbols_def split: option.splits if_splits)

lemma keptSpecifiers_kept:
  assumes "nonEmpty (keptSpecifiers sf d)"
  shows "kept sf (i, d) \<noteq> []"
proof -
  from assms obtain c es where c: "importClause d = Some c" "namedBindings c = Some (NamedImports es)"
    and ne: "filter (\<lambda>el. idText (specName el) \<in> allIdentifiers sf) es \<noteq> []"
    by (auto simp: keptSpecifiers_def declNamedBindings_def
        split: option.splits NamedImportBindings.splits)
  from ne obtain el where el: "el \<in> set es" "idText (specName el) \<in> allIdentifiers sf"
    by (auto simp: filter_empty_conv)
  then obtain j where "j < length es" "es ! j = el" by (auto simp: in_set_conv_nth)
  then have "(j, el) \<in> set (enumerate 0 es)" by (simp add: in_set_enumerate_eq)
  then have "\<lparr>name = idText (specName el), node = SpecifierRef i j, parent = (i, d)\<rparr>
             \<in> set (namedSymbols (i, d) es)"
    by (force simp: namedSymbols_def)
  with c have "\<lparr>name = idText (specName el), node = SpecifierRef i j, parent = (i, d)\<rparr>
             \<in> set (declSymbols (i, d))"
    by (simp add: declSymbols_def)
  with el(2) have "\<exists>s \<in> set (declSymbols (i, d)). name s \<in> allIdentifiers sf"
    by (intro bexI [where x = "\<lparr>name = idText (specName el), node = SpecifierRef i j, parent = (i, d)\<rparr>"]) simp_all
  then show ?thesis
    by (simp add: kept_def filter_empty_conv)
qed

lemma kept_empty_delete:
  assumes "removed sf (i, d) \<noteq> []" and "kept sf (i, d) = []"
  shows "statementEdit sf (i, d) = Some (lineDeletion sf d)"
proof -
  have "\<not> truthy (keptDefault sf d)"
    using assms(2) keptDefault_kept [of sf d _ i] by (cases "keptDefault sf d") auto
  moreover have "\<not> nonEmpty (keptSpecifiers sf d)"
    using assms(2) keptSpecifiers_kept [of sf d i] by auto
  ultimately show ?thesis using assms(1) by (simp add: statementEdit_eq)
qed

lemma kept_survivor:
  assumes "\<not> isNamespaceImport d" and "kept sf (i, d) \<noteq> []"
  shows "keptDefault sf d \<noteq> None \<or> nonEmpty (keptSpecifiers sf d)"
proof (cases "importClause d")
  case None
  with assms(2) show ?thesis by (simp add: kept_def declSymbols_def)
next
  case (Some c)
  show ?thesis
  proof (cases "keptDefault sf d")
    case kd: None
    have dflt: "filter (\<lambda>s. name s \<in> allIdentifiers sf)
            (case clauseName c of None \<Rightarrow> []
             | Some n \<Rightarrow> [\<lparr>name = idText n, node = ClauseNameRef (fst (i, d)), parent = (i, d)\<rparr>]) = []"
      using kd Some by (cases "clauseName c") (auto simp: keptDefault_def split: if_splits)
    show ?thesis
    proof (cases "namedBindings c")
      case None
      with Some assms(2) dflt show ?thesis by (simp add: kept_def declSymbols_def)
    next
      case nb: (Some nb)
      show ?thesis
      proof (cases nb)
        case (NamespaceImport v)
        with Some nb assms(1) show ?thesis
          by (simp add: isNamespaceImport_def declNamedBindings_def)
      next
        case (NamedImports es)
        with Some nb assms(2) dflt
        have "filter (\<lambda>s. name s \<in> allIdentifiers sf) (namedSymbols (i, d) es) \<noteq> []"
          by (simp add: kept_def declSymbols_def)
        then obtain s where "s \<in> set (namedSymbols (i, d) es)" "name s \<in> allIdentifiers sf"
          by (auto simp: filter_empty_conv)
        then obtain j where "j < length es" "idText (specName (es ! j)) \<in> allIdentifiers sf"
          by (auto simp: namedSymbols_def in_set_enumerate_eq)
        then have "es ! j \<in> set es \<and> idText (specName (es ! j)) \<in> allIdentifiers sf"
          by simp
        then have "filter (\<lambda>el. idText (specName el) \<in> allIdentifiers sf) es \<noteq> []"
          by (auto simp: filter_empty_conv)
        with Some nb NamedImports show ?thesis
          by (simp add: keptSpecifiers_def declNamedBindings_def)
      qed
    qed
  qed simp
qed

section \<open>Ranges and the usage set\<close>

lemma statementEdit_range:
  assumes "statementEdit sf p = Some e"
  shows "editRange e = declRange sf (snd p)
         \<or> editRange e = Range (startLine (declRange sf (snd p))) 0 (endLine (declRange sf (snd p)) + 1) 0"
proof -
  obtain i d where p: "p = (i, d)" by (cases p)
  from assms show ?thesis
    unfolding p statementEdit_eq
    by (auto simp: lineDeletion_def Let_def split: if_splits)
qed

lemma separate_lines_precede:
  assumes "endLine r < startLine r'"
    and "er = r \<or> er = Range (startLine r) 0 (endLine r + 1) 0"
    and "er' = r' \<or> er' = Range (startLine r') 0 (endLine r' + 1) 0"
  shows "precedes er er'"
  using assms by (auto simp: precedes_def rangeStart_def rangeEnd_def)

lemma precedes_not_overlaps: "precedes r r' \<Longrightarrow> \<not> overlaps r r'"
  by (simp add: precedes_def overlaps_def)

lemma separate_lines_in_order:
  assumes "onSeparateLines sf"
  shows "inFileOrder (analyzeFile sf)"
proof -
  let ?f = "statementEdit sf"
  let ?L = "\<lambda>p p'. endLine (declRange sf (snd p)) < startLine (declRange sf (snd p'))"
  let ?xs = "filter (\<lambda>p. ?f p \<noteq> None) (importStatements sf)"
  have "sorted_wrt ?L ?xs"
    using assms unfolding onSeparateLines_def by (rule sorted_wrt_filter)
  moreover have "precedes (editRange (the (?f p))) (editRange (the (?f p')))"
    if "p \<in> set ?xs" "p' \<in> set ?xs" "?L p p'" for p p'
  proof -
    from that(1,2) obtain e e' where e: "?f p = Some e" "?f p' = Some e'" by auto
    show ?thesis
      using separate_lines_precede [OF that(3) statementEdit_range [OF e(1)] statementEdit_range [OF e(2)]] e
      by simp
  qed
  ultimately have "sorted_wrt (\<lambda>p p'. precedes (editRange (the (?f p))) (editRange (the (?f p')))) ?xs"
    by (rule sorted_wrt_mono_rel [rotated])
  then show ?thesis
    by (simp add: inFileOrder_def analyzeFile_statements List.map_filter_def sorted_wrt_map)
qed





lemma importStatements_iff:
  "(i, d) \<in> set (importStatements sf)
   \<longleftrightarrow> i < length (sfChildren sf) \<and> sfChildren sf ! i = ImportDeclarationNode d"
proof -
  have "(i, d) \<in> set (nodeStatement x) \<longleftrightarrow> x = (i, ImportDeclarationNode d)" for x
  proof (cases x)
    case (Pair j nd)
    then show ?thesis by (cases nd) auto
  qed
  then show ?thesis
    by (auto simp: importStatements_def in_set_enumerate_eq)
qed

lemma analyzeFile_edit_source:
  assumes "e \<in> set (analyzeFile sf)"
  shows "\<exists>p \<in> set (importStatements sf). removed sf p \<noteq> [] \<and> statementEdit sf p = Some e"
proof -
  from assms obtain p where p: "p \<in> set (importStatements sf)" "statementEdit sf p = Some e"
    by (auto simp: analyzeFile_statements List.map_filter_def)
  then have "removed sf p \<noteq> []" by (auto simp: statementEdit_def split: if_splits)
  with p show ?thesis by blast
qed

lemma removed_has_clause: "removed sf (i, d) \<noteq> [] \<Longrightarrow> importClause d \<noteq> None"
  by (cases "importClause d") (simp_all add: removed_def declSymbols_def)

lemma other_lines_no_overlap:
  assumes "endLine r < startLine q \<or> endLine q < startLine r"
    and "er = r \<or> er = Range (startLine r) 0 (endLine r + 1) 0"
  shows "\<not> overlaps er q"
  using assms by (auto simp: overlaps_def rangeStart_def rangeEnd_def)

section \<open>The rebuilt text and the rewritten tree\<close>

lemma rebuilt_reducedImportText: "rebuilt sf d = reducedImportText sf d"
proof -
  have d: "truthy (keptDefault sf d) \<longleftrightarrow> survivingDefault (keptDefault sf d) \<noteq> []"
    by (cases "keptDefault sf d") simp_all
  have d': "truthy (keptDefault sf d) \<Longrightarrow> the (keptDefault sf d) = survivingDefault (keptDefault sf d)"
    by (cases "keptDefault sf d") simp_all
  have s: "nonEmpty (keptSpecifiers sf d) \<longleftrightarrow> specifierTexts sf (keptSpecifiers sf d) \<noteq> []"
    by (cases "keptSpecifiers sf d") simp_all
  have s': "nonEmpty (keptSpecifiers sf d) \<Longrightarrow>
        map (\<lambda>s. getText sf (specStart s) (specEnd s)) (the (keptSpecifiers sf d))
        = specifierTexts sf (keptSpecifiers sf d)"
    by (cases "keptSpecifiers sf d") simp_all
  show ?thesis
    using d d' s s' by (auto simp: rebuilt_def newImport_def reducedImportText_def Let_def)
qed


























lemma no_imports_no_symbols:
  assumes "importStatements sf = []"
  shows "importedSymbols sf = []"
proof -
  have "nodeSymbols c = []" if "c \<in> set (enumerate 0 (sfChildren sf))" for c
  proof (cases c)
    case (Pair i n)
    show ?thesis
    proof (cases n)
      case (ImportDeclarationNode d)
      with Pair that have "(i, d) \<in> set (importStatements sf)"
        by (simp add: importStatements_iff in_set_enumerate_eq)
      with assms show ?thesis by simp
    qed (simp_all add: Pair)
  qed
  then show ?thesis by (simp add: importedSymbols_def)
qed

text \<open>
  A statement without a namespace binding: its lines are deleted when no binding is kept,
  and it is never deleted when a binding is kept.
\<close>

lemma statement_without_namespace_edit:
  assumes "removed sf (i, d) \<noteq> []" and "\<not> isNamespaceImport d"
  shows "(kept sf (i, d) = [] \<longrightarrow> statementEdit sf (i, d) = Some (lineDeletion sf d))
    \<and> (kept sf (i, d) \<noteq> [] \<and> keptDefault sf d \<noteq> Some [] \<longrightarrow>
         statementEdit sf (i, d)
         = (if trim (reducedImportText sf d) \<noteq> trim (originalImport sf d)
            then Some (Replace (declRange sf d) (reducedImportText sf d)) else None))"
proof -
  have "truthy (keptDefault sf d) \<or> nonEmpty (keptSpecifiers sf d)"
    if "kept sf (i, d) \<noteq> []" "keptDefault sf d \<noteq> Some []"
  proof -
    from assms(2) that(1) have "keptDefault sf d \<noteq> None \<or> nonEmpty (keptSpecifiers sf d)"
      by (rule kept_survivor)
    with that(2) show ?thesis by (cases "keptDefault sf d") auto
  qed
  then have "kept sf (i, d) \<noteq> [] \<and> keptDefault sf d \<noteq> Some [] \<longrightarrow>
         statementEdit sf (i, d)
         = (if trim (reducedImportText sf d) \<noteq> trim (originalImport sf d)
            then Some (Replace (declRange sf d) (reducedImportText sf d)) else None)"
    using assms by (auto simp: statementEdit_eq rebuilt_reducedImportText)
  moreover have "kept sf (i, d) = [] \<longrightarrow> statementEdit sf (i, d) = Some (lineDeletion sf d)"
    using assms(1) by (simp add: kept_empty_delete)
  ultimately show ?thesis by blast
qed

section \<open>Conservatism (C1)\<close>

text \<open>
  C1.  A binding whose local name is used is never deleted with its statement and never
  dropped from a rebuilt statement, in particular a used namespace binding next to an
  unused default binding.  The code does otherwise on
  \<^verbatim>\<open>import Def, * as NS from './m';\<close> / \<^verbatim>\<open>NS.f();\<close>: \<open>NS\<close> is in the usage set, only
  the default name is among the unused nodes, yet the test for a used namespace import
  (\<^verbatim>\<open>node.parent.name === node\<close>) also holds of the default name, and the whole
  statement is deleted.
\<close>

theorem used_namespace_binding_deleted:
  "''NS'' \<in> allIdentifiers namespaceUsedFile
   \<and> unusedImportsByDeclaration namespaceUsedFile
       = [((0, defaultAndNamespaceDecl), [ClauseNameRef 0])]
   \<and> analyzeFile namespaceUsedFile = [Delete (Range 0 0 1 0)]
   \<and> applyEdits (sfText namespaceUsedFile) (analyzeFile namespaceUsedFile) = ''NS.f();''"
  by code_simp

section \<open>Plain property keys (C2)\<close>

text \<open>
  C2.  A plain object-literal property key does not count as a use: for
  \<^verbatim>\<open>import { Name } from './m';\<close> / \<^verbatim>\<open>const o = { Name: 1 };\<close> the edits delete the line
  of the import and the output is \<^verbatim>\<open>const o = { Name: 1 };\<close>.  The code does otherwise: the
  key is an identifier node outside the import declarations, \<open>visit\<close> records its name,
  no edit is returned and the text stays as it is.
\<close>

theorem plain_key_import_not_removed:
  "''Name'' \<in> allIdentifiers plainKeyFile
   \<and> analyzeFile plainKeyFile = []
   \<and> analyzeFile plainKeyFile \<noteq> [Delete (Range 0 0 1 0)]
   \<and> applyEdits (sfText plainKeyFile) (analyzeFile plainKeyFile) = sfText plainKeyFile
   \<and> applyEdits (sfText plainKeyFile) (analyzeFile plainKeyFile) \<noteq> ''const o = { Name: 1 };''"
  by code_simp

section \<open>Whole-statement deletion (C3)\<close>

text \<open>
  C3.  A statement with a removed binding gets a whole-line deletion if and only if none
  of its bindings is kept; when a binding is kept the edit is a replacement.  The code
  does otherwise on \<^verbatim>\<open>import Def, * as NS from './m';\<close> / \<^verbatim>\<open>Def();\<close>: the namespace
  binding is removed, the default binding \<open>Def\<close> is kept, and the edit made for the
  statement is the deletion of its line.
\<close>

theorem kept_default_statement_deleted:
  "removed defaultUsedFile (0, defaultAndNamespaceDecl) \<noteq> []
   \<and> map name (kept defaultUsedFile (0, defaultAndNamespaceDecl)) = [''Def'']
   \<and> declEdit defaultUsedFile
        ((0, defaultAndNamespaceDecl), removedNodes defaultUsedFile (0, defaultAndNamespaceDecl))
      = Some (Delete (Range 0 0 1 0))"
  by code_simp

section \<open>Type-only imports (C4)\<close>

text \<open>
  C4.  The type-only marker of a statement is preserved when the statement is rebuilt: for
  \<^verbatim>\<open>import type { Used, Unused } from './t';\<close> / \<^verbatim>\<open>let x: Used;\<close> the one edit replaces
  the statement by \<^verbatim>\<open>import type { Used } from './t';\<close>.  The code does otherwise: the
  rebuilt text starts with \<^verbatim>\<open>import \<close> followed by the kept bindings, the marker of the
  clause is not read, and the new text is \<^verbatim>\<open>import { Used } from './t';\<close>.
\<close>

theorem type_only_marker_dropped:
  "isTypeOnly (the (importClause typeOnlyDecl))
   \<and> analyzeFile typeOnlyFile = [Replace (Range 0 0 0 40) ''import { Used } from './t';'']
   \<and> analyzeFile typeOnlyFile \<noteq> [Replace (Range 0 0 0 40) ''import type { Used } from './t';'']
   \<and> applyEdits (sfText typeOnlyFile) (analyzeFile typeOnlyFile)
       = ''import { Used } from './t';'' @ LF @ ''let x: Used;''"
  by code_simp

section \<open>Order and overlap of edits (C5)\<close>

text \<open>
  C5 as stated: for every input the edits are in file order and no two ranges overlap, also
  when two import statements share a line.  For \<^verbatim>\<open>import a from 'a'; import b from 'b';\<close>
  on one line both statements are unused, and both edits delete line 0.
\<close>

theorem shared_line_counterexample:
  "analyzeFile sharedLineFile = [Delete (Range 0 0 1 0), Delete (Range 0 0 1 0)]
   \<and> overlaps (Range 0 0 1 0) (Range 0 0 1 0)
   \<and> \<not> inFileOrder (analyzeFile sharedLineFile)"
  by code_simp

text \<open>
  C5, amended.  The edit list is the list of the import statements' edits in the order of
  the statements, at most one per statement.  When every import statement ends on a line
  before the line the next import statement starts on, every edit ends at or before the
  start of each later edit, so the edits are in file order and no two ranges overlap.
\<close>

theorem edits_in_file_order:
  "analyzeFile sf = List.map_filter (statementEdit sf) (importStatements sf)
   \<and> (onSeparateLines sf \<longrightarrow>
        inFileOrder (analyzeFile sf)
        \<and> sorted_wrt (\<lambda>e e'. \<not> overlaps (editRange e) (editRange e')) (analyzeFile sf))"
proof -
  have "sorted_wrt (\<lambda>e e'. \<not> overlaps (editRange e) (editRange e')) (analyzeFile sf)"
    if "inFileOrder (analyzeFile sf)"
    using that unfolding inFileOrder_def
    by (rule sorted_wrt_mono_rel [rotated]) (simp add: precedes_not_overlaps)
  then show ?thesis
    using separate_lines_in_order [of sf] analyzeFile_statements [of sf] by blast
qed

theorem edits_in_file_order_witness:
  "onSeparateLines twoLineFile
   \<and> analyzeFile twoLineFile = [Delete (Range 0 0 1 0), Delete (Range 1 0 2 0)]
   \<and> inFileOrder (analyzeFile twoLineFile)
   \<and> sorted_wrt (\<lambda>e e'. \<not> overlaps (editRange e) (editRange e')) (analyzeFile twoLineFile)"
proof -
  have h: "onSeparateLines twoLineFile" by code_simp
  have v: "analyzeFile twoLineFile = [Delete (Range 0 0 1 0), Delete (Range 1 0 2 0)]" by code_simp
  from edits_in_file_order [of twoLineFile] h
  have "inFileOrder (analyzeFile twoLineFile)
        \<and> sorted_wrt (\<lambda>e e'. \<not> overlaps (editRange e) (editRange e')) (analyzeFile twoLineFile)"
    by blast
  with h v show ?thesis by blast
qed

section \<open>Idempotence (C6)\<close>




section \<open>Names in other import and export declarations (C7)\<close>




section \<open>Parse failures (C8)\<close>

text \<open>
  C8 as stated: a text that cannot be parsed gives no edit and a parse-error result that
  the caller can tell apart.  For the text \<^verbatim>\<open>)\<close> the parser finds no statement and
  reports a diagnostic; the analyzer returns the empty edit list, the same value as for
  the empty text, which parses without a diagnostic.
\<close>

theorem parse_error_indistinguishable_counterexample:
  "parseDiagnostics unparsedFile \<noteq> []
   \<and> parseDiagnostics emptyFile = []
   \<and> analyzeFile unparsedFile = analyzeFile emptyFile"
  by code_simp

text \<open>
  C8, amended.  When the parser finds no import declaration in the text, as when it finds
  no statement at all, the analyzer returns no edit; this is the same result as for the
  empty text, and no parse-error result is returned.
\<close>

theorem nothing_parsed_no_edits:
  "importStatements sf = [] \<longrightarrow> analyzeFile sf = [] \<and> analyzeFile sf = analyzeFile emptyFile"
proof
  assume a: "importStatements sf = []"
  have e: "importStatements emptyFile = []" by code_simp
  have z: "analyzeFile f = []" if "importStatements f = []" for f
    using no_imports_no_symbols [OF that]
    by (simp add: analyzeFile_def unusedImportsByDeclaration_def unusedSymbols_def)
  from z [OF a] z [OF e] show "analyzeFile sf = [] \<and> analyzeFile sf = analyzeFile emptyFile" by simp
qed

theorem nothing_parsed_no_edits_witness:
  "importStatements unparsedFile = []
   \<and> analyzeFile unparsedFile = []
   \<and> analyzeFile unparsedFile = analyzeFile emptyFile"
proof -
  have h: "importStatements unparsedFile = []" by code_simp
  from nothing_parsed_no_edits [of unparsedFile] h show ?thesis by blast
qed

section \<open>Re-exports and side-effect imports (C9)\<close>

text \<open>
  C9 as stated: no edit deletes or replaces any part of a re-export or of a side-effect
  import.  In \<^verbatim>\<open>import a from 'a'; import './x';\<close> on one line the deletion of line 0 for
  the unused import covers the side-effect import as well.
\<close>

theorem side_effect_import_counterexample:
  "importClause sideEffectDecl = None
   \<and> (1, sideEffectDecl) \<in> set (importStatements sideEffectFile)
   \<and> analyzeFile sideEffectFile = [Delete (Range 0 0 1 0)]
   \<and> declRange sideEffectFile sideEffectDecl = Range 0 19 0 32
   \<and> overlaps (Range 0 0 1 0) (declRange sideEffectFile sideEffectDecl)"
  by code_simp

text \<open>
  C9, amended.  Every edit is the edit of a top-level import declaration that has an
  import clause and a removed binding, so a re-export (not an import declaration) and a
  side-effect import (no import clause) have no edit of their own.  An edit does not
  overlap the span from \<open>a\<close> to \<open>b\<close> of any statement that shares no line with an
  import statement that has a removed binding.
\<close>

theorem edits_come_from_bound_imports:
  "e \<in> set (analyzeFile sf) \<longrightarrow>
     (\<exists>i d. i < length (sfChildren sf) \<and> sfChildren sf ! i = ImportDeclarationNode d
        \<and> importClause d \<noteq> None \<and> removed sf (i, d) \<noteq> []
        \<and> declEdit sf ((i, d), removedNodes sf (i, d)) = Some e)
     \<and> ((\<forall>p \<in> set (importStatements sf). removed sf p \<noteq> [] \<longrightarrow>
            endLine (declRange sf (snd p)) < startLine (getRange sf a b)
            \<or> endLine (getRange sf a b) < startLine (declRange sf (snd p)))
         \<longrightarrow> \<not> overlaps (editRange e) (getRange sf a b))"
proof
  assume "e \<in> set (analyzeFile sf)"
  then obtain p where p: "p \<in> set (importStatements sf)" "removed sf p \<noteq> []"
    "statementEdit sf p = Some e"
    using analyzeFile_edit_source by blast
  obtain i d where id: "p = (i, d)" by (cases p)
  have src: "i < length (sfChildren sf) \<and> sfChildren sf ! i = ImportDeclarationNode d"
    using p(1) by (simp add: id importStatements_iff)
  have cl: "importClause d \<noteq> None" using p(2) unfolding id by (rule removed_has_clause)
  have ed: "declEdit sf ((i, d), removedNodes sf (i, d)) = Some e"
    using p(2,3) by (simp add: id statementEdit_def)
  have far: "\<not> overlaps (editRange e) (getRange sf a b)"
    if "\<forall>p \<in> set (importStatements sf). removed sf p \<noteq> [] \<longrightarrow>
            endLine (declRange sf (snd p)) < startLine (getRange sf a b)
            \<or> endLine (getRange sf a b) < startLine (declRange sf (snd p))"
  proof -
    from that p(1,2) have "endLine (declRange sf (snd p)) < startLine (getRange sf a b)
            \<or> endLine (getRange sf a b) < startLine (declRange sf (snd p))" by blast
    then show ?thesis using statementEdit_range [OF p(3)] by (rule other_lines_no_overlap)
  qed
  from src cl p(2) ed far
  show "(\<exists>i d. i < length (sfChildren sf) \<and> sfChildren sf ! i = ImportDeclarationNode d
        \<and> importClause d \<noteq> None \<and> removed sf (i, d) \<noteq> []
        \<and> declEdit sf ((i, d), removedNodes sf (i, d)) = Some e)
     \<and> ((\<forall>p \<in> set (importStatements sf). removed sf p \<noteq> [] \<longrightarrow>
            endLine (declRange sf (snd p)) < startLine (getRange sf a b)
            \<or> endLine (getRange sf a b) < startLine (declRange sf (snd p)))
         \<longrightarrow> \<not> overlaps (editRange e) (getRange sf a b))"
    unfolding id by blast
qed

theorem edits_come_from_bound_imports_witness:
  "Delete (Range 0 0 1 0) \<in> set (analyzeFile sideEffectOwnLineFile)
   \<and> importStatements sideEffectOwnLineFile = [(0, unusedADecl), (1, sideEffectDecl)]
   \<and> removed sideEffectOwnLineFile (1, sideEffectDecl) = []
   \<and> endLine (declRange sideEffectOwnLineFile unusedADecl) = 0
   \<and> getRange sideEffectOwnLineFile 19 32 = Range 1 0 1 13
   \<and> overlaps (editRange (Delete (Range 0 0 1 0))) (getRange sideEffectOwnLineFile 19 32) = False"
proof -
  have h1: "Delete (Range 0 0 1 0) \<in> set (analyzeFile sideEffectOwnLineFile)" by code_simp
  have st: "importStatements sideEffectOwnLineFile = [(0, unusedADecl), (1, sideEffectDecl)]"
    by code_simp
  have rm: "removed sideEffectOwnLineFile (1, sideEffectDecl) = []" by code_simp
  have el: "endLine (declRange sideEffectOwnLineFile unusedADecl) = 0" by code_simp
  have r: "getRange sideEffectOwnLineFile 19 32 = Range 1 0 1 13" by code_simp
  have h2: "\<forall>p \<in> set (importStatements sideEffectOwnLineFile).
        removed sideEffectOwnLineFile p \<noteq> [] \<longrightarrow>
          endLine (declRange sideEffectOwnLineFile (snd p))
            < startLine (getRange sideEffectOwnLineFile 19 32)
          \<or> endLine (getRange sideEffectOwnLineFile 19 32)
              < startLine (declRange sideEffectOwnLineFile (snd p))"
    using st rm el r by simp
  from edits_come_from_bound_imports [of "Delete (Range 0 0 1 0)" sideEffectOwnLineFile 19 32] h1 h2
  have "\<not> overlaps (editRange (Delete (Range 0 0 1 0))) (getRange sideEffectOwnLineFile 19 32)"
    by blast
  with h1 st rm el r show ?thesis by blast
qed

section \<open>Usage by spelling (C10)\<close>

text \<open>
  C10.  The usage test is by spelling over all identifier nodes outside import
  declarations, and a binding whose local name occurs there is not removed by any edit.
  The code does otherwise on \<^verbatim>\<open>import Def, * as NS from './m';\<close> / \<^verbatim>\<open>Def();\<close>:
  \<open>Def\<close> is in the usage set, only the namespace name is among the unused nodes, and the
  branch for an unused namespace import deletes the whole statement, the default binding
  with it.
\<close>

theorem used_default_binding_deleted:
  "''Def'' \<in> allIdentifiers defaultUsedFile
   \<and> unusedImportsByDeclaration defaultUsedFile
       = [((0, defaultAndNamespaceDecl), [NamespaceNameRef 0])]
   \<and> analyzeFile defaultUsedFile = [Delete (Range 0 0 1 0)]
   \<and> applyEdits (sfText defaultUsedFile) (analyzeFile defaultUsedFile) = ''Def();''"
  by code_simp

end
